theory Spec2Isabelle
  imports Main "HOL-Library.AList"
begin

section \<open>Values, objects and the mutable state of the program\<close>

text \<open>
  The library is TypeScript: a class \<open>Signal\<close> (a keyed list of listener callbacks) and
  three functions \<open>createState\<close>, \<open>useSignal\<close>, \<open>useActions\<close> around one mutable
  cell. Its data are JavaScript values. Primitives are values; arrays and plain objects
  live on a heap and are held by reference, so that "a new object" and "the same
  reference" mean something; functions supplied by the caller (listeners, handlers) are
  known by an identifier whose behaviour is looked up in a table. A JavaScript string is
  a sequence of UTF-16 code units; a \<open>char\<close> here is one code unit, so the strings of
  the embedding are those whose code units are below 256.
\<close>

type_synonym addr = nat
type_synonym fid = nat

datatype jsval =
    JUndefined
  | JNull
  | JBool bool
  | JNum int
  | JStr string
  | JFun fid
  | JRef addr

text \<open>
  A heap object is an array or a plain object. A plain object is the list of its own
  enumerable string-keyed properties in the order \<open>Object.keys\<close> reports them.
\<close>

datatype hobj =
    HArr "jsval list"
  | HObj "(string \<times> jsval) list"

text \<open>
  What a property read finds when the value has no such own property comes from the
  host: the prototype chain of a plain object, of an array, of the wrapper of a
  primitive, and for a function also its built-in own properties. The library never
  writes there, so the embedding takes it as a table, by the kind of the receiver.
\<close>

datatype kind =
    ObjectKind
  | ArrayKind
  | StringKind
  | NumberKind
  | BooleanKind
  | FunctionKind fid

datatype exn = TypeError | Raised jsval

datatype 'a outcome = Returned 'a | Thrown exn

text \<open>
  The whole mutable state: the heap, the closure variables \<open>state\<close> and \<open>listeners\<close>
  of \<open>createState\<close>, the private field \<open>listenersMap\<close> of a \<open>Signal\<close>, what has been
  written with \<open>console.error\<close>, the host's table of inherited properties, and
  everything else a callback may touch (\<open>ext\<close>).
  One \<open>Signal\<close> and one cell are kept here; they are the \<open>this\<close> of the methods and
  the \<open>state\<close> argument of \<open>useSignal\<close> and \<open>useActions\<close>. Any further instance
  is part of \<open>ext\<close>. The payload type \<open>T\<close> of a signal is any value.
\<close>

record 'e world =
  heap :: "hobj list"
  state :: jsval
  listeners :: "fid list"
  listenersMap :: "string \<Rightarrow> fid list option"
  console :: "string list"
  prototypes :: "kind \<Rightarrow> string \<Rightarrow> jsval option"
  ext :: 'e

text \<open>
  A function supplied by the caller takes its arguments and the world, and returns or
  throws, leaving a world behind in both cases. A call that never completes has no
  entry of this type. Every operation of the library reports the calls it made to such
  functions, in order, next to its outcome.
\<close>

type_synonym 'e jsfun = "jsval list \<Rightarrow> 'e world \<Rightarrow> jsval outcome \<times> 'e world"
type_synonym call = "fid \<times> jsval list"
type_synonym ('a, 'e) run = "call list \<times> 'a outcome \<times> 'e world"

definition invoke :: "(fid \<Rightarrow> 'e jsfun) \<Rightarrow> fid \<Rightarrow> jsval list \<Rightarrow> 'e world \<Rightarrow> (jsval, 'e) run" where
  "invoke fns f args w = (case fns f args w of (r, w') \<Rightarrow> ([(f, args)], r, w'))"

text \<open>
  \<open>Array.prototype.forEach\<close>: the callback runs on each element in index order; the
  first callback that throws ends the loop and the error leaves \<open>forEach\<close>. The number
  of elements visited is fixed when the loop starts, and the library only ever appends
  to a listener array, so the loop runs over the elements present at its start.
\<close>

fun forEach :: "('a \<Rightarrow> 'e world \<Rightarrow> (jsval, 'e) run) \<Rightarrow> 'a list \<Rightarrow> 'e world \<Rightarrow> (unit, 'e) run" where
  "forEach cb [] w = ([], Returned (), w)"
| "forEach cb (x # xs) w =
     (case cb x w of
        (tr, Thrown e, w1) \<Rightarrow> (tr, Thrown e, w1)
      | (tr, Returned _, w1) \<Rightarrow>
          (case forEach cb xs w1 of (tr2, r, w2) \<Rightarrow> (tr @ tr2, r, w2)))"

section \<open>Signal\<close>

text \<open>
  \<^verbatim>\<open>subscribe(key, listener)\<close>: create the entry when the key has none, push the
  listener, return a closure that calls \<^verbatim>\<open>unsubscribeByKey(key)\<close>.
\<close>

definition unsubscribeByKey :: "string \<Rightarrow> 'e world \<Rightarrow> 'e world" where
  "unsubscribeByKey key w = w\<lparr>listenersMap := (listenersMap w)(key := None)\<rparr>"

definition subscribe :: "string \<Rightarrow> fid \<Rightarrow> 'e world \<Rightarrow> ('e world \<Rightarrow> 'e world) \<times> 'e world" where
  "subscribe key listener w =
     (let m = (if listenersMap w key = None then (listenersMap w)(key \<mapsto> []) else listenersMap w);
          m' = (case m key of None \<Rightarrow> m | Some ls \<Rightarrow> m(key \<mapsto> ls @ [listener]))
      in (\<lambda>w'. unsubscribeByKey key w', w\<lparr>listenersMap := m'\<rparr>))"

text \<open>
  \<^verbatim>\<open>emit(key, data)\<close>: \<^verbatim>\<open>this.listenersMap.get(key) || []\<close>, then
  \<^verbatim>\<open>forEach((listener) => listener(data))\<close>.
\<close>

definition emit :: "(fid \<Rightarrow> 'e jsfun) \<Rightarrow> string \<Rightarrow> jsval \<Rightarrow> 'e world \<Rightarrow> (unit, 'e) run" where
  "emit fns key data w =
     (let listeners = (case listenersMap w key of None \<Rightarrow> [] | Some ls \<Rightarrow> ls)
      in forEach (\<lambda>listener. invoke fns listener [data]) listeners w)"

section \<open>Objects on the heap\<close>

text \<open>
  Array indices as property keys: \<open>show_nat\<close> writes an index in decimal,
  \<open>index_of\<close> reads a key back when it is an array index: the canonical decimal form
  of a number below \<open>2^32 - 1\<close>.
\<close>

definition digit_char :: "nat \<Rightarrow> char" where
  "digit_char d = char_of (48 + d)"

function show_nat :: "nat \<Rightarrow> string" where
  "show_nat n = (if n < 10 then [digit_char n] else show_nat (n div 10) @ [digit_char (n mod 10)])"
  by pat_completeness auto
termination
  by (relation "measure id") auto

declare show_nat.simps [simp del]

definition digit_val :: "char \<Rightarrow> nat option" where
  "digit_val c =
     (let n = (of_char c :: nat) in if 48 \<le> n \<and> n \<le> 57 then Some (n - 48) else None)"

fun parse_digits :: "nat \<Rightarrow> string \<Rightarrow> nat option" where
  "parse_digits acc [] = Some acc"
| "parse_digits acc (c # cs) =
     (case digit_val c of None \<Rightarrow> None | Some d \<Rightarrow> parse_digits (10 * acc + d) cs)"

definition index_of :: "string \<Rightarrow> nat option" where
  "index_of k =
     (case k of
        [] \<Rightarrow> None
      | c # cs \<Rightarrow>
          if c = CHR ''0'' \<and> cs \<noteq> [] then None
          else (case parse_digits 0 k of
                  None \<Rightarrow> None
                | Some n \<Rightarrow> if n < 4294967295 then Some n else None))"

definition heap_at :: "'e world \<Rightarrow> addr \<Rightarrow> hobj" where
  "heap_at w a = (if a < length (heap w) then heap w ! a else HObj [])"

definition alloc :: "hobj \<Rightarrow> 'e world \<Rightarrow> jsval \<times> 'e world" where
  "alloc obj w = (JRef (length (heap w)), w\<lparr>heap := heap w @ [obj]\<rparr>)"

text \<open>\<^verbatim>\<open>typeof v\<close>.\<close>

fun typeof :: "jsval \<Rightarrow> string" where
  "typeof JUndefined = ''undefined''"
| "typeof JNull = ''object''"
| "typeof (JBool b) = ''boolean''"
| "typeof (JNum n) = ''number''"
| "typeof (JStr s) = ''string''"
| "typeof (JFun f) = ''function''"
| "typeof (JRef a) = ''object''"

text \<open>
  The own enumerable properties of a value, in enumeration order: what
  \<open>Object.keys\<close> lists and what an object spread \<^verbatim>\<open>{...v}\<close> copies. An array has its
  indices, a string its characters, every other primitive nothing.
\<close>

definition indexed :: "jsval list \<Rightarrow> (string \<times> jsval) list" where
  "indexed xs = zip (map show_nat [0..<length xs]) xs"

definition own_entries :: "'e world \<Rightarrow> jsval \<Rightarrow> (string \<times> jsval) list" where
  "own_entries w v =
     (case v of
        JRef a \<Rightarrow> (case heap_at w a of HObj es \<Rightarrow> es | HArr xs \<Rightarrow> indexed xs)
      | JStr s \<Rightarrow> indexed (map (\<lambda>c. JStr [c]) s)
      | _ \<Rightarrow> [])"

definition Object_keys :: "'e world \<Rightarrow> jsval \<Rightarrow> string list" where
  "Object_keys w v = map fst (own_entries w v)"

text \<open>
  \<^verbatim>\<open>v[k]\<close> for a value that is neither \<open>null\<close> nor \<open>undefined\<close>: an own property
  (of an array or a string: an element, or \<open>length\<close>) when there is one, otherwise
  what the receiver inherits, and \<open>undefined\<close> when it inherits nothing under that
  key. \<open>member\<close> is the full read: on \<open>null\<close> and \<open>undefined\<close> it throws a
  TypeError.
\<close>

definition own_elem :: "jsval list \<Rightarrow> string \<Rightarrow> jsval option" where
  "own_elem xs k =
     (case index_of k of
        Some i \<Rightarrow> if i < length xs then Some (xs ! i) else None
      | None \<Rightarrow> if k = ''length'' then Some (JNum (int (length xs))) else None)"

definition inherited :: "'e world \<Rightarrow> kind \<Rightarrow> string \<Rightarrow> jsval" where
  "inherited w kd k = (case prototypes w kd k of Some x \<Rightarrow> x | None \<Rightarrow> JUndefined)"

definition get_prop :: "'e world \<Rightarrow> jsval \<Rightarrow> string \<Rightarrow> jsval" where
  "get_prop w v k =
     (case v of
        JRef a \<Rightarrow>
          (case heap_at w a of
             HObj es \<Rightarrow> (case map_of es k of Some x \<Rightarrow> x | None \<Rightarrow> inherited w ObjectKind k)
           | HArr xs \<Rightarrow> (case own_elem xs k of Some x \<Rightarrow> x | None \<Rightarrow> inherited w ArrayKind k))
      | JStr s \<Rightarrow>
          (case own_elem (map (\<lambda>c. JStr [c]) s) k of
             Some x \<Rightarrow> x
           | None \<Rightarrow> inherited w StringKind k)
      | JNum n \<Rightarrow> inherited w NumberKind k
      | JBool b \<Rightarrow> inherited w BooleanKind k
      | JFun f \<Rightarrow> inherited w (FunctionKind f) k
      | _ \<Rightarrow> JUndefined)"

definition member :: "'e world \<Rightarrow> jsval \<Rightarrow> string \<Rightarrow> jsval outcome" where
  "member w v k = (if v = JUndefined \<or> v = JNull then Thrown TypeError else Returned (get_prop w v k))"

text \<open>\<^verbatim>\<open>Array.isArray(v)\<close> and the elements an array spread \<^verbatim>\<open>[...v]\<close> copies.\<close>

definition isArray :: "'e world \<Rightarrow> jsval \<Rightarrow> bool" where
  "isArray w v = (case v of JRef a \<Rightarrow> (case heap_at w a of HArr xs \<Rightarrow> True | HObj es \<Rightarrow> False) | _ \<Rightarrow> False)"

definition elements :: "'e world \<Rightarrow> jsval \<Rightarrow> jsval list" where
  "elements w v = (case v of JRef a \<Rightarrow> (case heap_at w a of HArr xs \<Rightarrow> xs | HObj es \<Rightarrow> []) | _ \<Rightarrow> [])"

text \<open>
  Defining property \<open>k\<close> on a copy in progress, as \<^verbatim>\<open>{...o, [k]: v}\<close> does: a key that
  exists keeps its place and takes the new value; a new key goes to the end, except
  that an array index is placed among the array indices, which come first in
  ascending order.
\<close>

fun insert_prop :: "string \<Rightarrow> jsval \<Rightarrow> (string \<times> jsval) list \<Rightarrow> (string \<times> jsval) list" where
  "insert_prop k v [] = [(k, v)]"
| "insert_prop k v ((k', v') # es) =
     (case index_of k of
        None \<Rightarrow> (k', v') # insert_prop k v es
      | Some i \<Rightarrow>
          (case index_of k' of
             None \<Rightarrow> (k, v) # (k', v') # es
           | Some j \<Rightarrow> if i < j then (k, v) # (k', v') # es else (k', v') # insert_prop k v es))"

definition set_prop :: "(string \<times> jsval) list \<Rightarrow> string \<Rightarrow> jsval \<Rightarrow> (string \<times> jsval) list" where
  "set_prop es k v = (if k \<in> fst ` set es then AList.update k v es else insert_prop k v es)"

definition console_error :: "string \<Rightarrow> 'e world \<Rightarrow> 'e world" where
  "console_error msg w = w\<lparr>console := console w @ [msg]\<rparr>"

section \<open>createState\<close>

text \<open>
  \<^verbatim>\<open>let state = initialState; const listeners = [];\<close> The returned object holds
  \<open>getState\<close>, \<open>setState\<close> and \<open>add\<close> and nothing else: no operation of the library
  puts a listener into \<open>listeners\<close>.
\<close>

definition createState :: "jsval \<Rightarrow> 'e world \<Rightarrow> 'e world" where
  "createState initialState w = w\<lparr>state := initialState, listeners := []\<rparr>"

definition getState :: "'e world \<Rightarrow> jsval" where
  "getState w = state w"

text \<open>
  \<^verbatim>\<open>const newState = updater(state); state = newState; listeners.forEach(listener => listener());\<close>
  The updater is any function of the previous value that may act on the world and may
  throw; when it throws nothing is assigned and no listener runs.
\<close>

definition setState ::
  "(fid \<Rightarrow> 'e jsfun) \<Rightarrow> (jsval \<Rightarrow> 'e world \<Rightarrow> (jsval, 'e) run) \<Rightarrow> 'e world \<Rightarrow> (unit, 'e) run" where
  "setState fns updater w =
     (case updater (state w) w of
        (tr, Thrown e, w1) \<Rightarrow> (tr, Thrown e, w1)
      | (tr, Returned newState, w1) \<Rightarrow>
          (case forEach (\<lambda>listener. invoke fns listener []) (listeners w1) (w1\<lparr>state := newState\<rparr>) of
             (tr2, r, w2) \<Rightarrow> (tr @ tr2, r, w2)))"

text \<open>The two diagnostics of \<open>add\<close>; the second has an a-acute, code unit 225.\<close>

definition msg_no_key :: string where
  "msg_no_key = ''Error: prevValue no tiene una clave de tipo string.''"

definition msg_not_object :: string where
  "msg_not_object = ''Error: prevValue no es un objeto v'' @ [char_of (225 :: nat)] @ ''lido.''"

text \<open>The function \<open>add\<close> hands to \<open>setState\<close>, then \<open>add\<close> itself.\<close>

definition add_updater :: "jsval \<Rightarrow> jsval \<Rightarrow> 'e world \<Rightarrow> (jsval, 'e) run" where
  "add_updater payload prevState w =
     (if typeof prevState = ''object'' \<and> prevState \<noteq> JNull then
        (let keys = Object_keys w prevState in
         if length keys > 0 \<and> typeof (JStr (keys ! 0)) = ''string'' then
           (let key = keys ! 0;
                currentValue = get_prop w prevState key;
                (updatedValue, w1) =
                   alloc (HArr (if isArray w currentValue then elements w currentValue @ [payload]
                                else [payload])) w;
                (newState, w2) = alloc (HObj (set_prop (own_entries w prevState) key updatedValue)) w1
            in ([], Returned newState, w2))
         else ([], Returned prevState, console_error msg_no_key w))
      else ([], Returned prevState, console_error msg_not_object w))"

definition add :: "(fid \<Rightarrow> 'e jsfun) \<Rightarrow> jsval \<Rightarrow> 'e world \<Rightarrow> (unit, 'e) run" where
  "add fns payload w = setState fns (add_updater payload) w"

section \<open>useSignal\<close>

text \<open>
  \<^verbatim>\<open>signal = () => state.getState()[key]\<close> and
  \<^verbatim>\<open>setSignal = (updater) => state.setState(prevState => ({ ...prevState, [key]: updater(prevState[key]) }))\<close>.
  The spread copies the previous value's properties before the caller's updater runs;
  the new object is the copy with \<open>key\<close> defined on it.
\<close>

definition signal :: "string \<Rightarrow> 'e world \<Rightarrow> jsval outcome" where
  "signal key w = member w (getState w) key"

definition setSignal_updater ::
  "string \<Rightarrow> (jsval \<Rightarrow> 'e world \<Rightarrow> (jsval, 'e) run) \<Rightarrow> jsval \<Rightarrow> 'e world \<Rightarrow> (jsval, 'e) run" where
  "setSignal_updater key updater prevState w =
     (let copied = own_entries w prevState in
      case member w prevState key of
        Thrown e \<Rightarrow> ([], Thrown e, w)
      | Returned prevValue \<Rightarrow>
          (case updater prevValue w of
             (tr, Thrown e, w1) \<Rightarrow> (tr, Thrown e, w1)
           | (tr, Returned v, w1) \<Rightarrow>
               (case alloc (HObj (set_prop copied key v)) w1 of
                  (newState, w2) \<Rightarrow> (tr, Returned newState, w2))))"

definition setSignal ::
  "(fid \<Rightarrow> 'e jsfun) \<Rightarrow> string \<Rightarrow> (jsval \<Rightarrow> 'e world \<Rightarrow> (jsval, 'e) run) \<Rightarrow> 'e world \<Rightarrow> (unit, 'e) run" where
  "setSignal fns key updater w = setState fns (setSignal_updater key updater) w"

definition useSignal ::
  "(fid \<Rightarrow> 'e jsfun) \<Rightarrow> string \<Rightarrow>
     ('e world \<Rightarrow> jsval outcome) \<times> ((jsval \<Rightarrow> 'e world \<Rightarrow> (jsval, 'e) run) \<Rightarrow> 'e world \<Rightarrow> (unit, 'e) run)" where
  "useSignal fns key = (signal key, setSignal fns key)"

section \<open>useActions\<close>

text \<open>
  \<open>actions\<close> maps an action type to a handler. \<open>dispatch\<close> calls \<open>setState\<close> with a
  function that looks the handler up, calls it with the payload when there is one, and
  returns \<open>prevState\<close>. \<open>useActions\<close> builds one trigger per key of \<open>actions\<close>.
\<close>

record action =
  type :: string
  payload :: jsval

definition dispatch_updater ::
  "(fid \<Rightarrow> 'e jsfun) \<Rightarrow> (string \<times> fid) list \<Rightarrow> action \<Rightarrow> jsval \<Rightarrow> 'e world \<Rightarrow> (jsval, 'e) run" where
  "dispatch_updater fns actions action prevState w =
     (case map_of actions (type action) of
        Some actionType \<Rightarrow>
          (case invoke fns actionType [payload action] w of
             (tr, Thrown e, w1) \<Rightarrow> (tr, Thrown e, w1)
           | (tr, Returned _, w1) \<Rightarrow> (tr, Returned prevState, w1))
      | None \<Rightarrow> ([], Returned prevState, w))"

definition dispatch ::
  "(fid \<Rightarrow> 'e jsfun) \<Rightarrow> (string \<times> fid) list \<Rightarrow> action \<Rightarrow> 'e world \<Rightarrow> (unit, 'e) run" where
  "dispatch fns actions action w = setState fns (dispatch_updater fns actions action) w"

definition useActions ::
  "(fid \<Rightarrow> 'e jsfun) \<Rightarrow> (string \<times> fid) list \<Rightarrow> (string \<times> (jsval \<Rightarrow> 'e world \<Rightarrow> (unit, 'e) run)) list" where
  "useActions fns actions =
     map (\<lambda>actionType. (actionType, \<lambda>payload. dispatch fns actions \<lparr>type = actionType, payload = payload\<rparr>))
       (map fst actions)"

section \<open>Notions used to state the properties\<close>

text \<open>
  A sequence of \<open>subscribe\<close> calls on one key, and the listeners a key holds
  (none when the key has no entry).
\<close>

definition subscribe_all :: "string \<Rightarrow> fid list \<Rightarrow> 'e world \<Rightarrow> 'e world" where
  "subscribe_all key ls w = foldl (\<lambda>w' l. snd (subscribe key l w')) w ls"

definition subscribed :: "'e world \<Rightarrow> string \<Rightarrow> fid list" where
  "subscribed w key = (case listenersMap w key of None \<Rightarrow> [] | Some ls \<Rightarrow> ls)"

text \<open>
  Calling the functions \<open>ls\<close> one after the other from \<open>w\<close>, each in the world
  the one before it left: whether every one of these calls returns, and the world after
  the last of them.
\<close>

fun all_return :: "(fid \<Rightarrow> 'e jsfun) \<Rightarrow> jsval list \<Rightarrow> fid list \<Rightarrow> 'e world \<Rightarrow> bool" where
  "all_return fns args [] w = True"
| "all_return fns args (l # ls) w =
     (case fns l args w of
        (Returned _, w') \<Rightarrow> all_return fns args ls w'
      | (Thrown _, _) \<Rightarrow> False)"

fun after_calls :: "(fid \<Rightarrow> 'e jsfun) \<Rightarrow> jsval list \<Rightarrow> fid list \<Rightarrow> 'e world \<Rightarrow> 'e world" where
  "after_calls fns args [] w = w"
| "after_calls fns args (l # ls) w = after_calls fns args ls (snd (fns l args w))"

text \<open>
  Change-listeners that return normally wherever they are called and leave the cell's
  value, the heap and the console as they found them. The list \<open>listeners\<close> of a
  cell made by \<open>createState\<close> is empty and stays so, and the empty list is quiet for
  any table; the theorems below hold for any list, so that they also say what the
  notification loop of \<open>setState\<close> does with the listeners it finds.
\<close>

definition quiet :: "(fid \<Rightarrow> 'e jsfun) \<Rightarrow> fid list \<Rightarrow> bool" where
  "quiet fns ls \<longleftrightarrow>
     (\<forall>l\<in>set ls. \<forall>w. \<exists>v w'. fns l [] w = (Returned v, w') \<and>
        state w' = state w \<and> heap w' = heap w \<and> console w' = console w)"

text \<open>An updater without side effects, such as \<^verbatim>\<open>s => s + 1\<close>.\<close>

definition pure_updater :: "(jsval \<Rightarrow> jsval) \<Rightarrow> jsval \<Rightarrow> 'e world \<Rightarrow> (jsval, 'e) run" where
  "pure_updater u prevState w = ([], Returned (u prevState), w)"

subsection \<open>Example inputs\<close>

text \<open>
  A host whose prototypes hold \<open>toString\<close> and nothing else, and the world before
  the library is used. A table of callbacks: function 0 throws; function 4 overwrites
  the cell's value with \<open>null\<close>, as a handler that calls \<open>setState\<close> itself would;
  every other function returns after adding its own number to a counter outside the
  library. In the second table function 5 reads the cell: it adds ten times the current
  number to the counter.
\<close>

definition host_prototypes :: "kind \<Rightarrow> string \<Rightarrow> jsval option" where
  "host_prototypes kd k = (if k = ''toString'' then Some (JFun 100) else None)"

definition empty_world :: "nat world" where
  "empty_world =
     \<lparr>heap = [], state = JUndefined, listeners = [], listenersMap = Map.empty, console = [],
      prototypes = host_prototypes, ext = 0\<rparr>"

definition demo_fns :: "fid \<Rightarrow> nat jsfun" where
  "demo_fns f args w =
     (if f = 0 then (Thrown (Raised (JStr ''boom'')), w)
      else if f = 4 then (Returned JUndefined, w\<lparr>state := JNull\<rparr>)
      else (Returned JUndefined, w\<lparr>ext := ext w + f\<rparr>))"

definition probe_fns :: "fid \<Rightarrow> nat jsfun" where
  "probe_fns f args w =
     (if f = 5 then
        (Returned JUndefined, w\<lparr>ext := ext w + 10 * (case state w of JNum n \<Rightarrow> nat n | _ \<Rightarrow> 0)\<rparr>)
      else demo_fns f args w)"

definition incr :: "jsval \<Rightarrow> jsval" where
  "incr v = (case v of JNum n \<Rightarrow> JNum (n + 1) | _ \<Rightarrow> v)"

text \<open>
  \<^verbatim>\<open>createState({items: [1, 2], count: 0})\<close>; the same cell with two functions in
  its listener list; a cell holding the number 5 with functions 1 and 5 in its list; and
  a signal with three listeners under one key, the second of which throws.
\<close>

definition items_world :: "nat world" where
  "items_world =
     createState (JRef 1)
       (empty_world\<lparr>heap := [HArr [JNum 1, JNum 2], HObj [(''items'', JRef 0), (''count'', JNum 0)]]\<rparr>)"

definition watched_world :: "nat world" where
  "watched_world = items_world\<lparr>listeners := [1, 2]\<rparr>"

definition probed_world :: "nat world" where
  "probed_world = (createState (JNum 5) empty_world)\<lparr>listeners := [1, 5]\<rparr>"

definition signal_world :: "nat world" where
  "signal_world = (subscribe_all ''k'' [1, 0, 2] empty_world)\<lparr>listeners := [1, 0, 2]\<rparr>"

section \<open>The listener loop\<close>

lemma invoke_Returned:
  "fns l args w = (Returned v, w1) \<Longrightarrow> invoke fns l args w = ([(l, args)], Returned v, w1)"
  by (simp add: invoke_def)

lemma invoke_Thrown:
  "fns l args w = (Thrown e, w1) \<Longrightarrow> invoke fns l args w = ([(l, args)], Thrown e, w1)"
  by (simp add: invoke_def)

lemma forEach_append:
  "forEach cb (xs @ ys) w =
     (case forEach cb xs w of
        (tr, Thrown e, w1) \<Rightarrow> (tr, Thrown e, w1)
      | (tr, Returned u, w1) \<Rightarrow> (case forEach cb ys w1 of (tr2, r, w2) \<Rightarrow> (tr @ tr2, r, w2)))"
  by (induction xs arbitrary: w) (auto split: prod.splits outcome.splits)

lemma forEach_returned_trace:
  "forEach (\<lambda>l. invoke fns l args) ls w = (tr, Returned u, w') \<Longrightarrow> tr = map (\<lambda>l. (l, args)) ls"
  by (induction ls arbitrary: w tr) (auto simp: invoke_def split: prod.splits outcome.splits)

lemma forEach_all_return:
  "all_return fns args ls w \<Longrightarrow>
     forEach (\<lambda>l. invoke fns l args) ls w =
       (map (\<lambda>l. (l, args)) ls, Returned (), after_calls fns args ls w)"
proof (induction ls arbitrary: w)
  case Nil
  show ?case by simp
next
  case (Cons l ls)
  from Cons.prems obtain v w1 where l: "fns l args w = (Returned v, w1)"
    and r: "all_return fns args ls w1"
    by (auto split: prod.splits outcome.splits)
  from Cons.IH [OF r] l show ?case by (simp add: invoke_Returned)
qed

lemma quiet_all_return:
  "quiet fns ls \<Longrightarrow>
     all_return fns [] ls w \<and> state (after_calls fns [] ls w) = state w \<and>
     heap (after_calls fns [] ls w) = heap w \<and> console (after_calls fns [] ls w) = console w"
proof (induction ls arbitrary: w)
  case Nil
  show ?case by simp
next
  case (Cons l ls)
  from Cons.prems obtain v w1 where l: "fns l [] w = (Returned v, w1)"
    and k: "state w1 = state w" "heap w1 = heap w" "console w1 = console w"
    unfolding quiet_def by (meson list.set_intros(1))
  from Cons.prems have "quiet fns ls"
    unfolding quiet_def by simp
  from Cons.IH [OF this, of w1] l k show ?case by simp
qed

lemma forEach_quiet:
  "quiet fns ls \<Longrightarrow>
     \<exists>w'. forEach (\<lambda>l. invoke fns l []) ls w = (map (\<lambda>l. (l, [])) ls, Returned (), w') \<and>
          state w' = state w \<and> heap w' = heap w \<and> console w' = console w"
proof (induction ls arbitrary: w)
  case Nil
  show ?case by simp
next
  case (Cons l ls)
  from Cons.prems obtain v w1 where l: "fns l [] w = (Returned v, w1)"
    and k: "state w1 = state w" "heap w1 = heap w" "console w1 = console w"
    unfolding quiet_def by (meson list.set_intros(1))
  from Cons.prems have "quiet fns ls"
    unfolding quiet_def by simp
  from Cons.IH [OF this, of w1] obtain w2 where
    "forEach (\<lambda>l. invoke fns l []) ls w1 = (map (\<lambda>l. (l, [])) ls, Returned (), w2)"
    "state w2 = state w1" "heap w2 = heap w1" "console w2 = console w1" by blast
  with l k show ?case by (simp add: invoke_Returned)
qed

lemma quiet_demo_fns: "quiet demo_fns [1, 2]"
  by (simp add: quiet_def demo_fns_def)

section \<open>Properties of Signal\<close>

lemma subscribed_subscribe:
  "subscribed (snd (subscribe key l w)) key = subscribed w key @ [l]"
  by (simp add: subscribed_def subscribe_def Let_def split: option.splits)

lemma subscribed_subscribe_all:
  "subscribed (subscribe_all key ls w) key = subscribed w key @ ls"
  by (induction ls arbitrary: w) (simp_all add: subscribe_all_def subscribed_subscribe)

lemma emit_subscribed:
  "emit fns key data w = forEach (\<lambda>l. invoke fns l [data]) (subscribed w key) w"
  by (simp add: emit_def subscribed_def)

text \<open>
  Claim C9. When the key has no listeners (no entry, or an empty one), \<open>emit\<close> calls
  no listener, raises nothing and leaves the world, the listener map included, exactly
  as it was.
\<close>

theorem emit_no_listeners_noop:
  assumes "listenersMap w key = None \<or> listenersMap w key = Some []"
  shows "emit fns key data w = ([], Returned (), w)"
  using assms by (auto simp: emit_def)

theorem emit_no_listeners_noop_witness:
  "listenersMap empty_world ''k'' = None \<and>
   emit demo_fns ''k'' (JNum 7) empty_world = ([], Returned (), empty_world)"
  using emit_no_listeners_noop [of empty_world "''k''" demo_fns "JNum 7"]
  by (simp add: empty_world_def)

text \<open>
  Claim C2. The closure returned by \<open>subscribe key l1\<close>, called in any later world
  \<open>w2\<close> (whatever was subscribed in between, by whom), deletes the whole entry of
  \<open>key\<close> and nothing else; an \<open>emit\<close> on \<open>key\<close> right after it calls no listener.
\<close>

theorem unsubscribe_closure_removes_every_listener:
  "fst (subscribe key l1 w) w2 = w2\<lparr>listenersMap := (listenersMap w2)(key := None)\<rparr> \<and>
   listenersMap (fst (subscribe key l1 w) w2) key = None \<and>
   emit fns key data (fst (subscribe key l1 w) w2) = ([], Returned (), fst (subscribe key l1 w) w2)"
  by (simp add: subscribe_def unsubscribeByKey_def emit_def Let_def)

text \<open>
  The same at a concrete input: listeners 1, 2 and 3 are subscribed under one key, 2
  and 3 after the closure of 1 was made; before the closure runs an \<open>emit\<close> calls all
  three, after it none.
\<close>

theorem unsubscribe_closure_removes_every_listener_witness:
  "fst (emit demo_fns ''k'' (JNum 7) (subscribe_all ''k'' [1, 2, 3] empty_world)) =
     [(1, [JNum 7]), (2, [JNum 7]), (3, [JNum 7])] \<and>
   emit demo_fns ''k'' (JNum 7)
     (fst (subscribe ''k'' 1 empty_world) (subscribe_all ''k'' [1, 2, 3] empty_world)) =
     ([], Returned (), empty_world)"
  using unsubscribe_closure_removes_every_listener
    [of "''k''" 1 empty_world "subscribe_all ''k'' [1, 2, 3] empty_world" demo_fns "JNum 7"]
  by (simp add: emit_def subscribe_all_def subscribe_def Let_def empty_world_def invoke_def
      demo_fns_def unsubscribeByKey_def)

text \<open>
  Claim C4, amended. After the listeners \<open>ls\<close> have been subscribed to \<open>key\<close> one
  after the other, with no unsubscription in between, and provided that no listener
  raises an error during the round, one \<open>emit key data\<close> returns normally having
  called each listener under \<open>key\<close> exactly once with \<open>data\<close>, those subscribed
  earlier first and then \<open>ls\<close> in the order of subscription; the world it leaves is
  the one these calls, made one after the other, lead to.
\<close>

theorem emit_invokes_each_listener_once_in_order:
  assumes "all_return fns [data] (subscribed w key @ ls) (subscribe_all key ls w)"
  shows "emit fns key data (subscribe_all key ls w) =
           (map (\<lambda>l. (l, [data])) (subscribed w key @ ls), Returned (),
            after_calls fns [data] (subscribed w key @ ls) (subscribe_all key ls w))"
  using forEach_all_return [OF assms] by (simp add: emit_subscribed subscribed_subscribe_all)

theorem emit_invokes_each_listener_once_in_order_witness:
  "all_return demo_fns [JNum 7] (subscribed empty_world ''k'' @ [2, 1, 3]) (subscribe_all ''k'' [2, 1, 3] empty_world) \<and>
   emit demo_fns ''k'' (JNum 7) (subscribe_all ''k'' [2, 1, 3] empty_world) =
     ([(2, [JNum 7]), (1, [JNum 7]), (3, [JNum 7])], Returned (),
      (subscribe_all ''k'' [2, 1, 3] empty_world)\<lparr>ext := 6\<rparr>)"
proof -
  have h: "all_return demo_fns [JNum 7] (subscribed empty_world ''k'' @ [2, 1, 3])
             (subscribe_all ''k'' [2, 1, 3] empty_world)"
    by (simp add: demo_fns_def subscribed_def empty_world_def)
  from emit_invokes_each_listener_once_in_order [OF h] h show ?thesis
    by (simp add: subscribed_def empty_world_def demo_fns_def subscribe_all_def subscribe_def Let_def)
qed

text \<open>
  Claim C4 as it is written fails when a listener throws: with the throwing listener 0
  subscribed before listener 1, one \<open>emit\<close> calls listener 0 and never calls
  listener 1.
\<close>

theorem emit_throwing_listener_counterexample:
  "fst (emit demo_fns ''k'' (JNum 7) (subscribe_all ''k'' [0, 1] empty_world)) = [(0, [JNum 7])] \<and>
   (1, [JNum 7]) \<notin> set (fst (emit demo_fns ''k'' (JNum 7) (subscribe_all ''k'' [0, 1] empty_world)))"
  by (simp add: emit_def subscribe_all_def subscribe_def Let_def empty_world_def invoke_def demo_fns_def)

text \<open>
  Claim C6. When the listeners ahead of \<open>l\<close> in the round have returned and \<open>l\<close>
  raises \<open>e\<close>, the error is the outcome of \<open>emit\<close> (of \<open>setState\<close>, for the
  change-listeners of a cell): nothing catches it, the listeners up to \<open>l\<close> have been
  called once each, and no listener after \<open>l\<close> is called.
\<close>

theorem listener_error_aborts_round:
  "(listenersMap w key = Some (pre @ l # post) \<and>
    forEach (\<lambda>x. invoke fns x [data]) pre w = (tr, Returned (), w1) \<and>
    fns l [data] w1 = (Thrown e, w2)
    \<longrightarrow> emit fns key data w = (map (\<lambda>x. (x, [data])) (pre @ [l]), Thrown e, w2)) \<and>
   (updater (state w) w = (tru, Returned v, wu) \<and> listeners wu = pre' @ l' # post' \<and>
    forEach (\<lambda>x. invoke fns x []) pre' (wu\<lparr>state := v\<rparr>) = (tr', Returned (), w1') \<and>
    fns l' [] w1' = (Thrown e', w2')
    \<longrightarrow> setState fns updater w = (tru @ map (\<lambda>x. (x, [])) (pre' @ [l']), Thrown e', w2'))"
proof (intro conjI impI)
  assume a: "listenersMap w key = Some (pre @ l # post) \<and>
    forEach (\<lambda>x. invoke fns x [data]) pre w = (tr, Returned (), w1) \<and>
    fns l [data] w1 = (Thrown e, w2)"
  then have "tr = map (\<lambda>x. (x, [data])) pre"
    using forEach_returned_trace by blast
  with a show "emit fns key data w = (map (\<lambda>x. (x, [data])) (pre @ [l]), Thrown e, w2)"
    by (simp add: emit_def forEach_append invoke_Thrown)
next
  assume a: "updater (state w) w = (tru, Returned v, wu) \<and> listeners wu = pre' @ l' # post' \<and>
    forEach (\<lambda>x. invoke fns x []) pre' (wu\<lparr>state := v\<rparr>) = (tr', Returned (), w1') \<and>
    fns l' [] w1' = (Thrown e', w2')"
  then have "tr' = map (\<lambda>x. (x, [])) pre'"
    using forEach_returned_trace by blast
  with a show "setState fns updater w = (tru @ map (\<lambda>x. (x, [])) (pre' @ [l']), Thrown e', w2')"
    by (simp add: setState_def forEach_append invoke_Thrown)
qed

theorem listener_error_aborts_round_witness:
  "emit demo_fns ''k'' (JNum 7) signal_world =
     ([(1, [JNum 7]), (0, [JNum 7])], Thrown (Raised (JStr ''boom'')), signal_world\<lparr>ext := 1\<rparr>) \<and>
   setState demo_fns (pure_updater incr) signal_world =
     ([(1, []), (0, [])], Thrown (Raised (JStr ''boom'')), signal_world\<lparr>ext := 1\<rparr>)"
  using listener_error_aborts_round [where w = signal_world and key = "''k''" and pre = "[1]" and l = 0
      and post = "[2]" and fns = demo_fns and data = "JNum 7" and tr = "[(1, [JNum 7])]"
      and ?w1.0 = "signal_world\<lparr>ext := 1\<rparr>" and e = "Raised (JStr ''boom'')"
      and ?w2.0 = "signal_world\<lparr>ext := 1\<rparr>" and updater = "pure_updater incr" and tru = "[]"
      and v = JUndefined and wu = signal_world and pre' = "[1]" and l' = 0 and post' = "[2]"
      and tr' = "[(1, [])]" and w1' = "signal_world\<lparr>ext := 1\<rparr>" and e' = "Raised (JStr ''boom'')"
      and w2' = "signal_world\<lparr>ext := 1\<rparr>"]
  by (simp add: signal_world_def subscribe_all_def subscribe_def Let_def empty_world_def
      demo_fns_def invoke_def pure_updater_def incr_def)

section \<open>Properties of the state cell\<close>

lemma createState_fresh: "getState (createState v w) = v \<and> listeners (createState v w) = []"
  by (simp add: createState_def getState_def)

lemma quiet_Nil: "quiet fns []"
  by (simp add: quiet_def)

lemma setState_quiet:
  assumes "updater (state w) w = (tr, Returned v, w1)" and "quiet fns (listeners w1)"
  shows "\<exists>w2. setState fns updater w = (tr @ map (\<lambda>l. (l, [])) (listeners w1), Returned (), w2) \<and>
           state w2 = v \<and> heap w2 = heap w1 \<and> console w2 = console w1"
proof -
  from forEach_quiet [OF assms(2), of "w1\<lparr>state := v\<rparr>"] obtain w2 where
    "forEach (\<lambda>l. invoke fns l []) (listeners w1) (w1\<lparr>state := v\<rparr>) =
       (map (\<lambda>l. (l, [])) (listeners w1), Returned (), w2)"
    "state w2 = v" "heap w2 = heap w1" "console w2 = console w1"
    by auto
  with assms(1) show ?thesis by (simp add: setState_def)
qed

lemma setState_all_return:
  assumes "updater (state w) w = (tr, Returned v, w1)"
    and "all_return fns [] (listeners w1) (w1\<lparr>state := v\<rparr>)"
  shows "setState fns updater w =
           (tr @ map (\<lambda>l. (l, [])) (listeners w1), Returned (),
            after_calls fns [] (listeners w1) (w1\<lparr>state := v\<rparr>))"
  using assms(1) forEach_all_return [OF assms(2)] by (simp add: setState_def)

text \<open>
  Claim C3. When the updater returns \<open>v\<close> for the current value, \<open>setState\<close>
  first makes \<open>v\<close> the current value and then calls every function in the cell's
  listener list once, with no argument, in list order: the world it leaves is the one
  reached by these calls, made one after the other, starting from the world in which
  \<open>v\<close> is already the current value. With listeners that leave the cell alone (in
  particular with none, as in every cell \<open>createState\<close> makes) \<open>getState\<close>
  afterwards returns exactly \<open>v\<close>.
\<close>

theorem setState_commits_and_notifies:
  assumes "updater (getState w) w = (tr, Returned v, w1)"
    and "all_return fns [] (listeners w1) (w1\<lparr>state := v\<rparr>)"
  shows "setState fns updater w =
           (tr @ map (\<lambda>l. (l, [])) (listeners w1), Returned (),
            after_calls fns [] (listeners w1) (w1\<lparr>state := v\<rparr>)) \<and>
         (quiet fns (listeners w1) \<longrightarrow>
            getState (after_calls fns [] (listeners w1) (w1\<lparr>state := v\<rparr>)) = v)"
  using setState_all_return [of updater w tr v w1 fns] assms
    quiet_all_return [of fns "listeners w1" "w1\<lparr>state := v\<rparr>"]
  by (simp add: getState_def)

text \<open>
  At concrete inputs: a cell as \<open>createState\<close> makes it, and a cell with functions 1
  and 5 in its listener list, where function 5 finds the new value 6 in the cell.
\<close>

theorem setState_commits_and_notifies_witness:
  "setState probe_fns (pure_updater incr) (createState (JNum 5) empty_world) =
     ([], Returned (), createState (JNum 6) empty_world) \<and>
   getState (createState (JNum 6) empty_world) = JNum 6 \<and>
   setState probe_fns (pure_updater incr) probed_world =
     ([(1, []), (5, [])], Returned (), probed_world\<lparr>state := JNum 6, ext := 61\<rparr>)"
  using setState_commits_and_notifies
      [of "pure_updater incr" "createState (JNum 5) empty_world" "[]" "JNum 6"
        "createState (JNum 5) empty_world" probe_fns]
    setState_commits_and_notifies
      [of "pure_updater incr" probed_world "[]" "JNum 6" probed_world probe_fns]
  by (simp add: pure_updater_def incr_def getState_def createState_def probed_world_def
      probe_fns_def demo_fns_def quiet_def empty_world_def)

subsection \<open>add\<close>

lemma index_of_zero: "index_of (show_nat 0) = Some 0"
  by (simp add: show_nat.simps index_of_def digit_char_def digit_val_def)

lemma indexed_Cons:
  "indexed xs = (key, cur) # rest \<Longrightarrow> key = show_nat 0 \<and> xs \<noteq> [] \<and> cur = xs ! 0"
  by (cases xs) (auto simp: indexed_def upt_conv_Cons simp del: upt_Suc)

lemma get_prop_first:
  assumes "own_entries w (JRef a) = (key, cur) # rest"
  shows "get_prop w (JRef a) key = cur"
proof (cases "heap_at w a")
  case (HArr xs)
  with assms have "indexed xs = (key, cur) # rest" by (simp add: own_entries_def)
  from indexed_Cons [OF this] HArr show ?thesis
    by (simp add: get_prop_def own_elem_def index_of_zero)
next
  case (HObj es)
  with assms show ?thesis by (simp add: own_entries_def get_prop_def)
qed

lemma set_prop_first: "set_prop ((key, cur) # rest) key v = (key, v) # rest"
  by (simp add: set_prop_def)

lemma add_updater_object:
  assumes "own_entries w (JRef a) = (key, cur) # rest"
  shows "add_updater pl (JRef a) w =
           ([], Returned (JRef (Suc (length (heap w)))),
            w\<lparr>heap := heap w @
                 [HArr (if isArray w cur then elements w cur @ [pl] else [pl]),
                  HObj ((key, JRef (length (heap w))) # rest)]\<rparr>)"
  using assms get_prop_first [OF assms]
  by (simp add: add_updater_def Object_keys_def alloc_def set_prop_first)

lemma add_updater_invalid:
  assumes "typeof v \<noteq> ''object'' \<or> v = JNull \<or> Object_keys w v = []"
  shows "add_updater pl v w =
           ([], Returned v,
            console_error (if typeof v = ''object'' \<and> v \<noteq> JNull then msg_no_key else msg_not_object) w)"
  using assms by (auto simp: add_updater_def)

text \<open>
  Claim C1. The current value is a reference to an object whose own properties start
  with \<open>key\<close>, holding \<open>cur\<close>. Then \<open>add\<close> returns normally and the heap grows
  by two objects while everything already on it stays as it was: a new array, which is
  the elements of \<open>cur\<close> followed by the payload when \<open>cur\<close> is an array and the
  payload alone otherwise, and a new object with the properties of the old one in the
  same order, \<open>key\<close> now holding the new array. The new object is the current value.
\<close>

theorem add_appends_under_first_key:
  assumes "getState w = JRef a" and "own_entries w (JRef a) = (key, cur) # rest"
    and "quiet fns (listeners w)"
  shows "\<exists>w'. add fns pl w = (map (\<lambda>l. (l, [])) (listeners w), Returned (), w') \<and>
           getState w' = JRef (Suc (length (heap w))) \<and>
           heap w' = heap w @
             [HArr (if isArray w cur then elements w cur @ [pl] else [pl]),
              HObj ((key, JRef (length (heap w))) # rest)]"
proof -
  let ?w1 = "w\<lparr>heap := heap w @
                 [HArr (if isArray w cur then elements w cur @ [pl] else [pl]),
                  HObj ((key, JRef (length (heap w))) # rest)]\<rparr>"
  have u: "add_updater pl (state w) w = ([], Returned (JRef (Suc (length (heap w)))), ?w1)"
    using add_updater_object [OF assms(2)] assms(1) by (simp add: getState_def)
  have q: "quiet fns (listeners ?w1)" using assms(3) by simp
  from setState_quiet [of "add_updater pl" w, OF u q] show ?thesis
    by (auto simp: add_def getState_def)
qed

theorem add_appends_under_first_key_witness:
  "\<exists>w'. add demo_fns (JNum 3) watched_world = ([(1, []), (2, [])], Returned (), w') \<and>
      getState w' = JRef 3 \<and>
      heap w' = [HArr [JNum 1, JNum 2], HObj [(''items'', JRef 0), (''count'', JNum 0)],
                 HArr [JNum 1, JNum 2, JNum 3], HObj [(''items'', JRef 2), (''count'', JNum 0)]]"
  using add_appends_under_first_key [of watched_world 1 "''items''" "JRef 0" "[(''count'', JNum 0)]" demo_fns "JNum 3"]
    quiet_demo_fns
  by (auto simp: watched_world_def items_world_def createState_def empty_world_def getState_def
      own_entries_def heap_at_def isArray_def elements_def eval_nat_numeral)

text \<open>
  Claim C5. When the current value is not a non-null object, or is an object without
  own keys, \<open>add\<close> returns normally (its result is the same \<open>void\<close> as on
  success), the current value and the heap are what they were, and the console has
  received one diagnostic: the message for a value that is no object, or the message
  for an object without a key.
\<close>

theorem add_invalid_shape_noop:
  assumes "typeof (getState w) \<noteq> ''object'' \<or> getState w = JNull \<or> Object_keys w (getState w) = []"
    and "quiet fns (listeners w)"
  shows "\<exists>w'. add fns pl w = (map (\<lambda>l. (l, [])) (listeners w), Returned (), w') \<and>
           getState w' = getState w \<and> heap w' = heap w \<and>
           console w' = console w @
             [if typeof (getState w) = ''object'' \<and> getState w \<noteq> JNull then msg_no_key else msg_not_object]"
proof -
  let ?m = "if typeof (state w) = ''object'' \<and> state w \<noteq> JNull then msg_no_key else msg_not_object"
  have u: "add_updater pl (state w) w = ([], Returned (state w), console_error ?m w)"
    using add_updater_invalid [of "state w" w pl] assms(1) by (simp add: getState_def)
  have q: "quiet fns (listeners (console_error ?m w))"
    using assms(2) by (simp add: console_error_def)
  from setState_quiet [of "add_updater pl" w, OF u q] show ?thesis
    by (auto simp: add_def getState_def console_error_def)
qed

theorem add_invalid_shape_noop_witness:
  "\<exists>w'. add demo_fns (JStr ''x'') (createState (JNum 5) empty_world) = ([], Returned (), w') \<and>
      getState w' = JNum 5 \<and> console w' = [msg_not_object]"
  using add_invalid_shape_noop [of "createState (JNum 5) empty_world" demo_fns "JStr ''x''"]
  by (auto simp: createState_def empty_world_def getState_def quiet_def)

subsection \<open>useSignal\<close>

lemma map_of_insert_prop:
  "k \<notin> fst ` set es \<Longrightarrow> map_of (insert_prop k v es) = (map_of es)(k \<mapsto> v)"
  by (induction es) (auto simp: fun_upd_twist split: option.splits)

lemma map_of_set_prop: "map_of (set_prop es k v) = (map_of es)(k \<mapsto> v)"
  by (simp add: set_prop_def map_of_insert_prop update_conv')

lemma setSignal_updater_object:
  assumes "updater (get_prop w (JRef a) k) w = (tr, Returned v, w1)"
  shows "setSignal_updater k updater (JRef a) w =
           (tr, Returned (JRef (length (heap w1))),
            w1\<lparr>heap := heap w1 @ [HObj (set_prop (own_entries w (JRef a)) k v)]\<rparr>)"
  using assms by (simp add: setSignal_updater_def member_def alloc_def)

lemma own_entries_fresh:
  "heap w' = hp @ [HObj es] \<Longrightarrow> own_entries w' (JRef (length hp)) = es"
  by (simp add: own_entries_def heap_at_def)

lemma get_prop_fresh:
  "heap w' = hp @ [HObj es] \<Longrightarrow>
     get_prop w' (JRef (length hp)) k' =
       (case map_of es k' of Some x \<Rightarrow> x | None \<Rightarrow> inherited w' ObjectKind k')"
  by (simp add: get_prop_def heap_at_def)

lemma set_prop_order_examples:
  "set_prop [(''b'', JNum 1)] ''4294967295'' v = [(''b'', JNum 1), (''4294967295'', v)] \<and>
   set_prop [(''b'', JNum 1)] ''4294967294'' v = [(''4294967294'', v), (''b'', JNum 1)] \<and>
   set_prop [(''2'', JNum 1), (''b'', JNum 1)] ''10'' v = [(''2'', JNum 1), (''10'', v), (''b'', JNum 1)]"
  by (simp add: set_prop_def index_of_def digit_val_def)

lemma inherited_read_example:
  "fst (useSignal demo_fns ''toString'') watched_world = Returned (JFun 100)"
  by (simp add: useSignal_def signal_def member_def getState_def get_prop_def heap_at_def inherited_def
      watched_world_def items_world_def createState_def empty_world_def host_prototypes_def)

text \<open>
  Claim C7. The current value is a reference to an object. The first component of
  \<open>useSignal\<close> reads the value's property \<open>k\<close>. The second, given an updater that
  returns \<open>v\<close> for that property, puts a new object on the heap, makes it the
  current value and runs the notification loop; nothing else changes. The own
  properties of the new object are those the old object had when \<open>write\<close> was
  called, except that \<open>k\<close> holds \<open>v\<close>: reading \<open>k\<close> then gives \<open>v\<close>, and
  reading any other own key of the old object gives the value it had there.
\<close>

theorem useSignal_reads_and_writes_one_key:
  assumes "getState w = JRef a" and "updater (get_prop w (JRef a) k) w = (tr, Returned v, w1)"
    and "quiet fns (listeners w1)"
  shows "fst (useSignal fns k) w = Returned (get_prop w (getState w) k) \<and>
         (let w' = after_calls fns [] (listeners w1)
                     (w1\<lparr>heap := heap w1 @ [HObj (set_prop (own_entries w (JRef a)) k v)],
                         state := JRef (length (heap w1))\<rparr>)
          in snd (useSignal fns k) updater w =
               (tr @ map (\<lambda>l. (l, [])) (listeners w1), Returned (), w') \<and>
             getState w' = JRef (length (heap w1)) \<and>
             heap w' = heap w1 @ [HObj (set_prop (own_entries w (JRef a)) k v)] \<and>
             map_of (own_entries w' (getState w')) = (map_of (own_entries w (JRef a)))(k \<mapsto> v) \<and>
             fst (useSignal fns k) w' = Returned v \<and>
             (\<forall>k' x. k' \<noteq> k \<and> map_of (own_entries w (JRef a)) k' = Some x \<longrightarrow>
                fst (useSignal fns k') w' = Returned x))"
proof
  show "fst (useSignal fns k) w = Returned (get_prop w (getState w) k)"
    using assms(1) by (simp add: useSignal_def signal_def member_def)
next
  let ?es = "set_prop (own_entries w (JRef a)) k v"
  let ?w2 = "w1\<lparr>heap := heap w1 @ [HObj ?es]\<rparr>"
  let ?w3 = "w1\<lparr>heap := heap w1 @ [HObj ?es], state := JRef (length (heap w1))\<rparr>"
  let ?w' = "after_calls fns [] (listeners w1) ?w3"
  have u: "setSignal_updater k updater (state w) w = (tr, Returned (JRef (length (heap w1))), ?w2)"
    using setSignal_updater_object [of updater w a k tr v w1] assms(1,2) by (simp add: getState_def)
  have q: "all_return fns [] (listeners w1) ?w3" "state ?w' = JRef (length (heap w1))"
    "heap ?w' = heap w1 @ [HObj ?es]"
    using quiet_all_return [OF assms(3), of ?w3] by simp_all
  have r: "setState fns (setSignal_updater k updater) w =
             (tr @ map (\<lambda>l. (l, [])) (listeners w1), Returned (), ?w')"
    using setState_all_return [of "setSignal_updater k updater" w tr "JRef (length (heap w1))" ?w2 fns]
      u q(1) by simp
  have e: "own_entries ?w' (JRef (length (heap w1))) = ?es"
    using own_entries_fresh [OF q(3)] .
  have g: "\<And>k'. get_prop ?w' (JRef (length (heap w1))) k' =
             (case map_of ?es k' of Some x \<Rightarrow> x | None \<Rightarrow> inherited ?w' ObjectKind k')"
    using get_prop_fresh [OF q(3)] .
  from r q(2,3) e g
  show "let w' = ?w'
        in snd (useSignal fns k) updater w =
               (tr @ map (\<lambda>l. (l, [])) (listeners w1), Returned (), w') \<and>
             getState w' = JRef (length (heap w1)) \<and>
             heap w' = heap w1 @ [HObj ?es] \<and>
             map_of (own_entries w' (getState w')) = (map_of (own_entries w (JRef a)))(k \<mapsto> v) \<and>
             fst (useSignal fns k) w' = Returned v \<and>
             (\<forall>k' x. k' \<noteq> k \<and> map_of (own_entries w (JRef a)) k' = Some x \<longrightarrow>
                fst (useSignal fns k') w' = Returned x)"
    unfolding Let_def
    by (simp add: useSignal_def setSignal_def getState_def signal_def member_def map_of_set_prop)
qed

text \<open>
  At a concrete input: the cell \<^verbatim>\<open>{items: [1, 2], count: 0}\<close> with functions 1 and
  2 in its listener list, and \<open>count\<close> incremented through \<open>useSignal\<close>.
\<close>

theorem useSignal_reads_and_writes_one_key_witness:
  "fst (useSignal demo_fns ''count'') watched_world = Returned (JNum 0) \<and>
   snd (useSignal demo_fns ''count'') (pure_updater incr) watched_world =
     ([(1, []), (2, [])], Returned (),
      watched_world
        \<lparr>heap := [HArr [JNum 1, JNum 2], HObj [(''items'', JRef 0), (''count'', JNum 0)],
                  HObj [(''items'', JRef 0), (''count'', JNum 1)]],
         state := JRef 2, ext := 3\<rparr>) \<and>
   fst (useSignal demo_fns ''count'')
     (watched_world
        \<lparr>heap := [HArr [JNum 1, JNum 2], HObj [(''items'', JRef 0), (''count'', JNum 0)],
                  HObj [(''items'', JRef 0), (''count'', JNum 1)]],
         state := JRef 2, ext := 3\<rparr>) = Returned (JNum 1) \<and>
   fst (useSignal demo_fns ''items'')
     (watched_world
        \<lparr>heap := [HArr [JNum 1, JNum 2], HObj [(''items'', JRef 0), (''count'', JNum 0)],
                  HObj [(''items'', JRef 0), (''count'', JNum 1)]],
         state := JRef 2, ext := 3\<rparr>) = Returned (JRef 0)"
  using useSignal_reads_and_writes_one_key [of watched_world 1 "pure_updater incr" "''count''" "[]" "JNum 1"
      watched_world demo_fns] quiet_demo_fns
  by (simp add: getState_def get_prop_def pure_updater_def incr_def own_entries_def set_prop_def
      heap_at_def watched_world_def items_world_def createState_def empty_world_def demo_fns_def
      Let_def eval_nat_numeral)

subsection \<open>useActions\<close>

lemma map_of_tabulate: "A \<in> set ks \<Longrightarrow> map_of (map (\<lambda>k. (k, f k)) ks) A = Some (f A)"
  by (induction ks) auto

lemma useActions_lookup:
  assumes "map_of actions A = Some h"
  shows "map_of (useActions fns actions) A = Some (\<lambda>p. dispatch fns actions \<lparr>type = A, payload = p\<rparr>)"
proof -
  from assms have "A \<in> set (map fst actions)"
    by (metis map_of_SomeD set_zip_leftD zip_map_fst_snd)
  then show ?thesis
    unfolding useActions_def by (rule map_of_tabulate)
qed

lemma dispatch_updater_handler:
  assumes "map_of actions A = Some h" and "fns h [pl] w = (Returned x, w1)"
  shows "dispatch_updater fns actions \<lparr>type = A, payload = pl\<rparr> prev w = ([(h, [pl])], Returned prev, w1)"
  using assms by (simp add: dispatch_updater_def invoke_Returned)

lemma dispatch_all_return:
  assumes "map_of actions A = Some h" and "fns h [pl] w = (Returned x, w1)"
    and "all_return fns [] (listeners w1) (w1\<lparr>state := state w\<rparr>)"
  shows "dispatch fns actions \<lparr>type = A, payload = pl\<rparr> w =
           ((h, [pl]) # map (\<lambda>l. (l, [])) (listeners w1), Returned (),
            after_calls fns [] (listeners w1) (w1\<lparr>state := state w\<rparr>))"
proof -
  have u: "dispatch_updater fns actions \<lparr>type = A, payload = pl\<rparr> (state w) w = ([(h, [pl])], Returned (state w), w1)"
    using dispatch_updater_handler [of actions A h fns pl w x w1 "state w"] assms(1,2) by simp
  from setState_all_return [of "dispatch_updater fns actions \<lparr>type = A, payload = pl\<rparr>" w, OF u assms(3)]
  show ?thesis by (simp add: dispatch_def)
qed

text \<open>
  Claim C8. For a key \<open>A\<close> of \<open>actions\<close> with handler \<open>h\<close>, \<open>useActions\<close> holds
  a trigger under \<open>A\<close>. Called with a payload, the function it hands to \<open>setState\<close>
  calls \<open>h\<close> once, with that payload, and when \<open>h\<close> returns it returns the very
  value it was given: the previous state, the same reference. The trigger call as a
  whole is that one call of \<open>h\<close> followed by the notification loop, and the world it
  leaves is the world \<open>h\<close> left with the previous state put back as the current
  value, followed by the listeners' calls. With listeners that leave the cell alone the
  current value after the trigger is the one before it.
\<close>

theorem trigger_calls_handler_once_and_returns_previous_state:
  assumes "map_of actions A = Some h" and "fns h [pl] w = (Returned x, w1)"
    and "all_return fns [] (listeners w1) (w1\<lparr>state := getState w\<rparr>)"
  shows "\<exists>trigger. map_of (useActions fns actions) A = Some trigger \<and>
           dispatch_updater fns actions \<lparr>type = A, payload = pl\<rparr> (getState w) w =
             ([(h, [pl])], Returned (getState w), w1) \<and>
           trigger pl w =
             ((h, [pl]) # map (\<lambda>l. (l, [])) (listeners w1), Returned (),
              after_calls fns [] (listeners w1) (w1\<lparr>state := getState w\<rparr>)) \<and>
           (quiet fns (listeners w1) \<longrightarrow>
              getState (after_calls fns [] (listeners w1) (w1\<lparr>state := getState w\<rparr>)) = getState w)"
  using useActions_lookup [of actions A h fns] dispatch_updater_handler [of actions A h fns pl w x w1 "getState w"]
    dispatch_all_return [of actions A h fns pl w x w1] assms
    quiet_all_return [of fns "listeners w1" "w1\<lparr>state := getState w\<rparr>"]
  by (simp add: getState_def)

text \<open>
  At concrete inputs: on the cell \<^verbatim>\<open>{items: [1, 2], count: 0}\<close> as \<open>createState\<close>
  makes it, the trigger of handler 3 leaves the handler's effect on the counter and the
  cell's value as it was; with functions 1 and 2 in the listener list, the trigger of
  handler 4, which stores \<open>null\<close> in the cell, ends with the previous value back in
  the cell and both listeners called.
\<close>

theorem trigger_calls_handler_once_and_returns_previous_state_witness:
  "(\<exists>trigger. map_of (useActions demo_fns [(''inc'', 3), (''reset'', 4)]) ''inc'' = Some trigger \<and>
      trigger (JNum 9) items_world = ([(3, [JNum 9])], Returned (), items_world\<lparr>ext := 3\<rparr>)) \<and>
   (\<exists>trigger. map_of (useActions demo_fns [(''inc'', 3), (''reset'', 4)]) ''reset'' = Some trigger \<and>
      dispatch_updater demo_fns [(''inc'', 3), (''reset'', 4)] \<lparr>type = ''reset'', payload = JNum 9\<rparr>
          (getState watched_world) watched_world =
        ([(4, [JNum 9])], Returned (JRef 1), watched_world\<lparr>state := JNull\<rparr>) \<and>
      trigger (JNum 9) watched_world =
        ([(4, [JNum 9]), (1, []), (2, [])], Returned (), watched_world\<lparr>ext := 3\<rparr>))"
proof -
  from trigger_calls_handler_once_and_returns_previous_state
    [of "[(''inc'', 3), (''reset'', 4)]" "''inc''" 3 demo_fns "JNum 9" items_world JUndefined
      "items_world\<lparr>ext := 3\<rparr>"]
  have a: "\<exists>trigger. map_of (useActions demo_fns [(''inc'', 3), (''reset'', 4)]) ''inc'' = Some trigger \<and>
      trigger (JNum 9) items_world = ([(3, [JNum 9])], Returned (), items_world\<lparr>ext := 3\<rparr>)"
    by (auto simp: demo_fns_def items_world_def createState_def getState_def empty_world_def)
  from trigger_calls_handler_once_and_returns_previous_state
    [of "[(''inc'', 3), (''reset'', 4)]" "''reset''" 4 demo_fns "JNum 9" watched_world JUndefined
      "watched_world\<lparr>state := JNull\<rparr>"]
  have b: "\<exists>trigger. map_of (useActions demo_fns [(''inc'', 3), (''reset'', 4)]) ''reset'' = Some trigger \<and>
      dispatch_updater demo_fns [(''inc'', 3), (''reset'', 4)] \<lparr>type = ''reset'', payload = JNum 9\<rparr>
          (getState watched_world) watched_world =
        ([(4, [JNum 9])], Returned (JRef 1), watched_world\<lparr>state := JNull\<rparr>) \<and>
      trigger (JNum 9) watched_world =
        ([(4, [JNum 9]), (1, []), (2, [])], Returned (), watched_world\<lparr>ext := 3\<rparr>)"
    by (auto simp: demo_fns_def watched_world_def items_world_def createState_def getState_def
        empty_world_def)
  from a b show ?thesis by blast
qed

text \<open>
  Claim C10. \<open>setState\<close> runs the notification loop whenever the updater returns,
  also when the updater returns the value it was given. Hence the three cases: an updater
  that returns the current value; \<open>add\<close> on a value that is not a non-null object or
  has no own key; a trigger of \<open>useActions\<close> whose handler returns. In each, every
  function in the listener list is called once, in list order, starting from a world in
  which the current value is the one before the call, and the world left behind is the
  one these calls lead to.
\<close>

theorem setState_notifies_even_when_value_unchanged:
  "(updater (getState w) w = (tr, Returned (getState w), w1) \<and>
    all_return fns [] (listeners w1) (w1\<lparr>state := getState w\<rparr>) \<longrightarrow>
      setState fns updater w =
        (tr @ map (\<lambda>l. (l, [])) (listeners w1), Returned (),
         after_calls fns [] (listeners w1) (w1\<lparr>state := getState w\<rparr>))) \<and>
   ((typeof (getState w) \<noteq> ''object'' \<or> getState w = JNull \<or> Object_keys w (getState w) = []) \<and>
    all_return fns [] (listeners w)
      (console_error (if typeof (getState w) = ''object'' \<and> getState w \<noteq> JNull then msg_no_key
                      else msg_not_object) w) \<longrightarrow>
      add fns pl w =
        (map (\<lambda>l. (l, [])) (listeners w), Returned (),
         after_calls fns [] (listeners w)
           (console_error (if typeof (getState w) = ''object'' \<and> getState w \<noteq> JNull then msg_no_key
                           else msg_not_object) w))) \<and>
   (map_of actions A = Some h \<and> fns h [pl] w = (Returned x, w2) \<and>
    all_return fns [] (listeners w2) (w2\<lparr>state := getState w\<rparr>) \<longrightarrow>
      (\<exists>trigger. map_of (useActions fns actions) A = Some trigger \<and>
         trigger pl w =
           ((h, [pl]) # map (\<lambda>l. (l, [])) (listeners w2), Returned (),
            after_calls fns [] (listeners w2) (w2\<lparr>state := getState w\<rparr>))))"
proof (intro conjI impI)
  assume "updater (getState w) w = (tr, Returned (getState w), w1) \<and>
    all_return fns [] (listeners w1) (w1\<lparr>state := getState w\<rparr>)"
  then show "setState fns updater w =
        (tr @ map (\<lambda>l. (l, [])) (listeners w1), Returned (),
         after_calls fns [] (listeners w1) (w1\<lparr>state := getState w\<rparr>))"
    using setState_all_return [of updater w tr "state w" w1 fns] by (simp add: getState_def)
next
  let ?m = "if typeof (state w) = ''object'' \<and> state w \<noteq> JNull then msg_no_key else msg_not_object"
  assume a: "(typeof (getState w) \<noteq> ''object'' \<or> getState w = JNull \<or> Object_keys w (getState w) = []) \<and>
    all_return fns [] (listeners w)
      (console_error (if typeof (getState w) = ''object'' \<and> getState w \<noteq> JNull then msg_no_key
                      else msg_not_object) w)"
  then have u: "add_updater pl (state w) w = ([], Returned (state w), console_error ?m w)"
    using add_updater_invalid [of "state w" w pl] by (simp add: getState_def)
  have s: "(console_error ?m w)\<lparr>state := state w\<rparr> = console_error ?m w"
    by (simp add: console_error_def)
  have l: "listeners (console_error ?m w) = listeners w"
    by (simp add: console_error_def)
  from a have q: "all_return fns [] (listeners (console_error ?m w)) ((console_error ?m w)\<lparr>state := state w\<rparr>)"
    unfolding s l by (simp add: getState_def)
  from setState_all_return [of "add_updater pl" w, OF u q]
  show "add fns pl w =
        (map (\<lambda>l. (l, [])) (listeners w), Returned (),
         after_calls fns [] (listeners w)
           (console_error (if typeof (getState w) = ''object'' \<and> getState w \<noteq> JNull then msg_no_key
                           else msg_not_object) w))"
    unfolding s l by (simp add: add_def getState_def)
next
  assume a: "map_of actions A = Some h \<and> fns h [pl] w = (Returned x, w2) \<and>
    all_return fns [] (listeners w2) (w2\<lparr>state := getState w\<rparr>)"
  then show "\<exists>trigger. map_of (useActions fns actions) A = Some trigger \<and>
         trigger pl w =
           ((h, [pl]) # map (\<lambda>l. (l, [])) (listeners w2), Returned (),
            after_calls fns [] (listeners w2) (w2\<lparr>state := getState w\<rparr>))"
    using useActions_lookup [of actions A h fns] dispatch_all_return [of actions A h fns pl w x w2]
    by (simp add: getState_def)
qed

text \<open>
  At concrete inputs: the cell holding 5 with functions 1 and 5 in its listener list,
  where function 5 finds 5 in the cell each time; and \<open>add\<close> on the cell holding
  5 as \<open>createState\<close> makes it.
\<close>

theorem setState_notifies_even_when_value_unchanged_witness:
  "setState probe_fns (pure_updater id) probed_world =
     ([(1, []), (5, [])], Returned (), probed_world\<lparr>ext := 51\<rparr>) \<and>
   add probe_fns (JNum 9) probed_world =
     ([(1, []), (5, [])], Returned (), probed_world\<lparr>console := [msg_not_object], ext := 51\<rparr>) \<and>
   (\<exists>trigger. map_of (useActions probe_fns [(''inc'', 3)]) ''inc'' = Some trigger \<and>
      trigger (JNum 9) probed_world =
        ([(3, [JNum 9]), (1, []), (5, [])], Returned (), probed_world\<lparr>ext := 54\<rparr>)) \<and>
   add probe_fns (JNum 9) (createState (JNum 5) empty_world) =
     ([], Returned (), (createState (JNum 5) empty_world)\<lparr>console := [msg_not_object]\<rparr>)"
proof -
  from setState_notifies_even_when_value_unchanged
    [of "pure_updater id" probed_world "[]" probed_world probe_fns "JNum 9" "[(''inc'', 3)]" "''inc''" 3
      JUndefined "probed_world\<lparr>ext := 3\<rparr>"]
  have a: "setState probe_fns (pure_updater id) probed_world =
     ([(1, []), (5, [])], Returned (), probed_world\<lparr>ext := 51\<rparr>) \<and>
   add probe_fns (JNum 9) probed_world =
     ([(1, []), (5, [])], Returned (), probed_world\<lparr>console := [msg_not_object], ext := 51\<rparr>) \<and>
   (\<exists>trigger. map_of (useActions probe_fns [(''inc'', 3)]) ''inc'' = Some trigger \<and>
      trigger (JNum 9) probed_world =
        ([(3, [JNum 9]), (1, []), (5, [])], Returned (), probed_world\<lparr>ext := 54\<rparr>))"
    by (auto simp: probe_fns_def demo_fns_def probed_world_def createState_def getState_def
        pure_updater_def empty_world_def console_error_def)
  from setState_notifies_even_when_value_unchanged
    [of _ "createState (JNum 5) empty_world" _ _ probe_fns "JNum 9"]
  have b: "add probe_fns (JNum 9) (createState (JNum 5) empty_world) =
     ([], Returned (), (createState (JNum 5) empty_world)\<lparr>console := [msg_not_object]\<rparr>)"
    by (simp add: createState_def getState_def empty_world_def console_error_def)
  from a b show ?thesis by simp
qed

end
